theory Spec2Isabelle
  imports Main
begin

section \<open>C strings and the argument vector\<close>

text \<open>
  A C string is modelled by the characters of its buffer; the terminating NUL is implicit
  at index \<open>length buf\<close>. Reading past the terminator, reading outside the argument vector
  and reading through a null pointer are the faults of the model.
\<close>

datatype fault = NullDeref | OutOfBounds

definition NUL :: char where
  "NUL = CHR 0x00"

definition char_at :: "string \<Rightarrow> int \<Rightarrow> fault + char" where
  "char_at buf i =
     (if 0 \<le> i \<and> i < int (length buf) then Inr (buf ! nat i)
      else if i = int (length buf) then Inr NUL
      else Inl OutOfBounds)"

text \<open>\<open>p[i]\<close> for a \<open>char *\<close> that may be null.\<close>

definition deref :: "string option \<Rightarrow> int \<Rightarrow> fault + char" where
  "deref p i = (case p of None \<Rightarrow> Inl NullDeref | Some buf \<Rightarrow> char_at buf i)"

text \<open>\<open>argv[i]\<close>: the vector is an array of possibly null string pointers.\<close>

definition argv_at :: "string option list \<Rightarrow> int \<Rightarrow> fault + string option" where
  "argv_at argv i =
     (if 0 \<le> i \<and> i < int (length argv) then Inr (argv ! nat i) else Inl OutOfBounds)"

text \<open>The string a buffer denotes: its characters up to the first NUL.\<close>

definition c_str :: "string \<Rightarrow> string" where
  "c_str buf = takeWhile (\<lambda>ch. ch \<noteq> NUL) buf"

text \<open>\<open>strcmp(a, b) == 0\<close>.\<close>

definition strcmp_eq :: "string \<Rightarrow> string \<Rightarrow> bool" where
  "strcmp_eq a b = (c_str a = c_str b)"

text \<open>
  \<open>strchr(s, ch)\<close> as the offset of the first occurrence of \<open>ch\<close>, \<open>None\<close> for a null
  result. The terminator belongs to the string, so searching for NUL finds it.
\<close>

fun strchr_from :: "string \<Rightarrow> char \<Rightarrow> nat \<Rightarrow> nat option" where
  "strchr_from [] ch n = (if ch = NUL then Some n else None)"
| "strchr_from (x # xs) ch n =
     (if x = ch then Some n else if x = NUL then None else strchr_from xs ch (Suc n))"

definition strchr :: "string \<Rightarrow> char \<Rightarrow> nat option" where
  "strchr s ch = strchr_from s ch 0"

text \<open>
  The conversion of a plain \<open>char\<close> to \<open>int\<close>. The implementation is compiled on Windows
  only, where plain \<open>char\<close> is signed.
\<close>

definition char_to_int :: "char \<Rightarrow> int" where
  "char_to_int ch = (if (of_char ch :: int) < 128 then of_char ch else of_char ch - 256)"

section \<open>The scanner state\<close>

text \<open>
  The four global variables, the function-local static \<open>arg_idx\<close>, and the lines handed
  to the error stream (message and option character; the program name comes from the
  platform). \<open>optarg\<close> is a pointer into the argument vector: element index and character
  offset, \<open>None\<close> for the null pointer. \<open>optind\<close> and \<open>arg_idx\<close> hold the values of C
  \<open>int\<close>s. The functions of the next section add to them in the integers, which is what
  the source computes as long as no sum leaves the range of \<open>int\<close>; the functions of the
  section after it wrap every sum to 32 bits.
\<close>

record getopt_state =
  optarg :: "(int \<times> int) option"
  optind :: int
  opterr :: int
  optopt :: int
  arg_idx :: int
  err_out :: "(string \<times> int) list"

definition init_state :: getopt_state where
  "init_state = \<lparr>optarg = None, optind = 1, opterr = 1, optopt = char_to_int CHR ''?'',
     arg_idx = 0, err_out = []\<rparr>"

definition getopt_p_option_unknown :: int where
  "getopt_p_option_unknown = char_to_int CHR ''?''"

definition getopt_p_option_missing :: int where
  "getopt_p_option_missing = char_to_int CHR '':''"

text \<open>The value of a \<open>char *\<close> read from \<open>argv[i]\<close>, as a pointer into the vector.\<close>

definition ptr_of :: "string option \<Rightarrow> int \<Rightarrow> (int \<times> int) option" where
  "ptr_of p i = (case p of None \<Rightarrow> None | Some buf \<Rightarrow> Some (i, 0))"

text \<open>The string \<open>optarg\<close> points at.\<close>

definition optarg_string :: "string option list \<Rightarrow> (int \<times> int) option \<Rightarrow> string option" where
  "optarg_string argv p =
     (case p of None \<Rightarrow> None
      | Some (e, off) \<Rightarrow>
          (case argv_at argv e of
             Inr (Some buf) \<Rightarrow> Some (c_str (drop (nat off) buf))
           | _ \<Rightarrow> None))"

section \<open>getopt over the integers\<close>

text \<open>
  \<open>getopt_p_print_err\<close> (lines 273 to 293): a line goes to the error stream when \<open>opterr\<close>
  is set and \<open>opt_str\<close> does not start with \<open>:\<close>.
\<close>

definition getopt_p_print_err :: "string \<Rightarrow> string \<Rightarrow> int \<Rightarrow> getopt_state \<Rightarrow> getopt_state" where
  "getopt_p_print_err opt_str msg option_char s =
     (if opterr s \<noteq> 0 \<and> char_at opt_str 0 \<noteq> Inr CHR '':''
      then s\<lparr>err_out := err_out s @ [(msg, option_char)]\<rparr>
      else s)"

text \<open>
  The first part of \<open>getopt\<close> (lines 205 to 217 of \<open>getopt_p.h\<close>), run when \<open>arg_idx\<close> is
  0: \<open>Some r\<close> when the function returns \<open>r\<close> there, \<open>None\<close> when control reaches the
  option character. The tests are evaluated in the order of the source, so nothing is
  read once \<open>optind \<ge> argc\<close> holds.
\<close>

definition new_token ::
  "int \<Rightarrow> string option list \<Rightarrow> getopt_state \<Rightarrow> fault + (int option \<times> getopt_state)" where
  "new_token argc argv s =
     (if arg_idx s = 0 then
        (if optind s \<ge> argc then Inr (Some (- 1), s)
         else
           (case argv_at argv (optind s) of
              Inl e \<Rightarrow> Inl e
            | Inr None \<Rightarrow> Inr (Some (- 1), s)
            | Inr (Some buf) \<Rightarrow>
                (case char_at buf 0 of
                   Inl e \<Rightarrow> Inl e
                 | Inr c0 \<Rightarrow>
                     if c0 \<noteq> CHR ''-'' \<or> strcmp_eq buf ''-'' then Inr (Some (- 1), s)
                     else if strcmp_eq buf ''--''
                       then Inr (Some (- 1), s\<lparr>optind := optind s + 1\<rparr>)
                     else Inr (None, s\<lparr>arg_idx := arg_idx s + 1\<rparr>))))
      else Inr (None, s))"

text \<open>
  After an option character that takes no argument or is not an option (lines 227 to 231
  and 260 to 264): step to the next character, and to the next element when the token
  ends there. The increment is exact here; \<open>advance_char32\<close> below is the same step with
  the increment of a 32-bit \<open>int\<close>, which differs at \<open>arg_idx = INT_MAX\<close> only.
\<close>

definition advance_char ::
  "string option list \<Rightarrow> getopt_state \<Rightarrow> fault + getopt_state" where
  "advance_char argv s0 =
     (let s = s0\<lparr>arg_idx := arg_idx s0 + 1\<rparr> in
      case argv_at argv (optind s) of
        Inl e \<Rightarrow> Inl e
      | Inr p \<Rightarrow>
          (case deref p (arg_idx s) of
             Inl e \<Rightarrow> Inl e
           | Inr nx \<Rightarrow>
               if nx = NUL then Inr (s\<lparr>optind := optind s + 1, arg_idx := 0\<rparr>)
               else Inr s))"

text \<open>
  The rest of \<open>getopt\<close> (lines 220 to 269), from the read of the option character on.
  \<open>c\<close> is the \<open>int\<close> the source works with; \<open>strchr\<close> converts it back to the character
  \<open>ch\<close> it came from. The vector is never written, so \<open>argv[optind]\<close> is read once
  for each value of \<open>optind\<close>.
\<close>

definition option_char ::
  "int \<Rightarrow> string option list \<Rightarrow> string \<Rightarrow> getopt_state \<Rightarrow> fault + (int \<times> getopt_state)" where
  "option_char argc argv opt_str s0 =
     (case argv_at argv (optind s0) of
        Inl e \<Rightarrow> Inl e
      | Inr p \<Rightarrow>
     (case deref p (arg_idx s0) of
        Inl e \<Rightarrow> Inl e
      | Inr ch \<Rightarrow>
     (let c = char_to_int ch;
          s = s0\<lparr>optopt := c\<rparr>;
          cp = strchr opt_str ch
      in
      if c = char_to_int CHR '':'' \<or> cp = None then
        (case advance_char argv (getopt_p_print_err opt_str ''invalid option'' c s) of
           Inl e \<Rightarrow> Inl e
         | Inr s' \<Rightarrow> Inr (getopt_p_option_unknown, s'))
      else
        (case char_at opt_str (int (the cp) + 1) of
           Inl e \<Rightarrow> Inl e
         | Inr m \<Rightarrow>
             if m = CHR '':'' then
               (case deref p (arg_idx s + 1) of
                  Inl e \<Rightarrow> Inl e
                | Inr nx \<Rightarrow>
                    if nx \<noteq> NUL then
                      Inr (c, s\<lparr>optarg := Some (optind s, arg_idx s + 1),
                                 optind := optind s + 1, arg_idx := 0\<rparr>)
                    else if optind s + 1 < argc then
                      (case argv_at argv (optind s + 1) of
                         Inl e \<Rightarrow> Inl e
                       | Inr q \<Rightarrow>
                           Inr (c, s\<lparr>optarg := ptr_of q (optind s + 1),
                                      optind := optind s + 2, arg_idx := 0\<rparr>))
                    else
                      (let s' = (getopt_p_print_err opt_str ''argument required for option'' c s)
                                  \<lparr>optind := optind s + 1, arg_idx := 0\<rparr>
                       in if char_at opt_str 0 = Inr CHR '':''
                          then Inr (getopt_p_option_missing, s')
                          else Inr (getopt_p_option_unknown, s')))
             else
               (case advance_char argv s of
                  Inl e \<Rightarrow> Inl e
                | Inr s' \<Rightarrow> Inr (c, s'\<lparr>optarg := None\<rparr>))))))"

text \<open>A call: \<open>optarg\<close> is cleared (line 202), then the two parts run.\<close>

definition getopt ::
  "int \<Rightarrow> string option list \<Rightarrow> string \<Rightarrow> getopt_state \<Rightarrow> fault + (int \<times> getopt_state)" where
  "getopt argc argv opt_str s =
     (case new_token argc argv (s\<lparr>optarg := None\<rparr>) of
        Inl e \<Rightarrow> Inl e
      | Inr (Some r, s1) \<Rightarrow> Inr (r, s1)
      | Inr (None, s1) \<Rightarrow> option_char argc argv opt_str s1)"

text \<open>
  \<open>n\<close> successive calls on the same vector and option string, the state passed from
  each call to the next, the returned values collected: what a caller's loop does when it
  does not touch the variables.
\<close>

fun getopt_calls ::
  "nat \<Rightarrow> int \<Rightarrow> string option list \<Rightarrow> string \<Rightarrow> getopt_state \<Rightarrow> fault + (int list \<times> getopt_state)" where
  "getopt_calls 0 argc argv opt_str s = Inr ([], s)"
| "getopt_calls (Suc n) argc argv opt_str s =
     (case getopt argc argv opt_str s of
        Inl e \<Rightarrow> Inl e
      | Inr (r, s1) \<Rightarrow>
          (case getopt_calls n argc argv opt_str s1 of
             Inl e \<Rightarrow> Inl e
           | Inr (rs, s2) \<Rightarrow> Inr (r # rs, s2)))"

section \<open>getopt over 32-bit int\<close>

text \<open>
  \<open>optind\<close>, \<open>arg_idx\<close> and \<open>argc\<close> are C \<open>int\<close>s (32 bits on the Windows targets). The
  definitions above compute their sums in the integers. The definitions of this section
  are the same code with every sum of the source (\<open>optind++\<close>, \<open>arg_idx++\<close>,
  \<open>arg_idx+1\<close>, \<open>optind+1\<close>) reduced to the range of \<open>int\<close> by two's-complement
  wrap-around: an increment at \<open>INT_MAX\<close> gives \<open>INT_MIN\<close>, and the read that follows at
  the wrapped offset is out of bounds.
\<close>

definition INT_MAX :: int where
  "INT_MAX = 2147483647"

definition int32 :: "int \<Rightarrow> int" where
  "int32 x = (x + 2147483648) mod 4294967296 - 2147483648"

definition new_token32 ::
  "int \<Rightarrow> string option list \<Rightarrow> getopt_state \<Rightarrow> fault + (int option \<times> getopt_state)" where
  "new_token32 argc argv s =
     (if arg_idx s = 0 then
        (if optind s \<ge> argc then Inr (Some (- 1), s)
         else
           (case argv_at argv (optind s) of
              Inl e \<Rightarrow> Inl e
            | Inr None \<Rightarrow> Inr (Some (- 1), s)
            | Inr (Some buf) \<Rightarrow>
                (case char_at buf 0 of
                   Inl e \<Rightarrow> Inl e
                 | Inr c0 \<Rightarrow>
                     if c0 \<noteq> CHR ''-'' \<or> strcmp_eq buf ''-'' then Inr (Some (- 1), s)
                     else if strcmp_eq buf ''--''
                       then Inr (Some (- 1), s\<lparr>optind := int32 (optind s + 1)\<rparr>)
                     else Inr (None, s\<lparr>arg_idx := int32 (arg_idx s + 1)\<rparr>))))
      else Inr (None, s))"

definition advance_char32 ::
  "string option list \<Rightarrow> getopt_state \<Rightarrow> fault + getopt_state" where
  "advance_char32 argv s0 =
     (let s = s0\<lparr>arg_idx := int32 (arg_idx s0 + 1)\<rparr> in
      case argv_at argv (optind s) of
        Inl e \<Rightarrow> Inl e
      | Inr p \<Rightarrow>
          (case deref p (arg_idx s) of
             Inl e \<Rightarrow> Inl e
           | Inr nx \<Rightarrow>
               if nx = NUL then Inr (s\<lparr>optind := int32 (optind s + 1), arg_idx := 0\<rparr>)
               else Inr s))"

definition option_char32 ::
  "int \<Rightarrow> string option list \<Rightarrow> string \<Rightarrow> getopt_state \<Rightarrow> fault + (int \<times> getopt_state)" where
  "option_char32 argc argv opt_str s0 =
     (case argv_at argv (optind s0) of
        Inl e \<Rightarrow> Inl e
      | Inr p \<Rightarrow>
     (case deref p (arg_idx s0) of
        Inl e \<Rightarrow> Inl e
      | Inr ch \<Rightarrow>
     (let c = char_to_int ch;
          s = s0\<lparr>optopt := c\<rparr>;
          cp = strchr opt_str ch
      in
      if c = char_to_int CHR '':'' \<or> cp = None then
        (case advance_char32 argv (getopt_p_print_err opt_str ''invalid option'' c s) of
           Inl e \<Rightarrow> Inl e
         | Inr s' \<Rightarrow> Inr (getopt_p_option_unknown, s'))
      else
        (case char_at opt_str (int (the cp) + 1) of
           Inl e \<Rightarrow> Inl e
         | Inr m \<Rightarrow>
             if m = CHR '':'' then
               (case deref p (int32 (arg_idx s + 1)) of
                  Inl e \<Rightarrow> Inl e
                | Inr nx \<Rightarrow>
                    if nx \<noteq> NUL then
                      Inr (c, s\<lparr>optarg := Some (optind s, int32 (arg_idx s + 1)),
                                 optind := int32 (optind s + 1), arg_idx := 0\<rparr>)
                    else if int32 (optind s + 1) < argc then
                      (case argv_at argv (int32 (optind s + 1)) of
                         Inl e \<Rightarrow> Inl e
                       | Inr q \<Rightarrow>
                           Inr (c, s\<lparr>optarg := ptr_of q (int32 (optind s + 1)),
                                      optind := int32 (int32 (optind s + 1) + 1),
                                      arg_idx := 0\<rparr>))
                    else
                      (let s' = (getopt_p_print_err opt_str ''argument required for option'' c s)
                                  \<lparr>optind := int32 (optind s + 1), arg_idx := 0\<rparr>
                       in if char_at opt_str 0 = Inr CHR '':''
                          then Inr (getopt_p_option_missing, s')
                          else Inr (getopt_p_option_unknown, s')))
             else
               (case advance_char32 argv s of
                  Inl e \<Rightarrow> Inl e
                | Inr s' \<Rightarrow> Inr (c, s'\<lparr>optarg := None\<rparr>))))))"

definition getopt32 ::
  "int \<Rightarrow> string option list \<Rightarrow> string \<Rightarrow> getopt_state \<Rightarrow> fault + (int \<times> getopt_state)" where
  "getopt32 argc argv opt_str s =
     (case new_token32 argc argv (s\<lparr>optarg := None\<rparr>) of
        Inl e \<Rightarrow> Inl e
      | Inr (Some r, s1) \<Rightarrow> Inr (r, s1)
      | Inr (None, s1) \<Rightarrow> option_char32 argc argv opt_str s1)"


section \<open>Vocabulary of the claims\<close>

text \<open>
  \<open>scans argc argv s buf i ch\<close>: a call of \<open>getopt\<close> in state \<open>s\<close> reaches the read of the
  option character, and reads \<open>ch\<close> at offset \<open>i\<close> of the current element \<open>buf\<close>. At a
  token boundary (\<open>arg_idx = 0\<close>) this requires that none of the end-of-options tests
  holds, and the offset is 1; inside a token the offset is \<open>arg_idx\<close>.
\<close>

definition scans :: "int \<Rightarrow> string option list \<Rightarrow> getopt_state \<Rightarrow> string \<Rightarrow> int \<Rightarrow> char \<Rightarrow> bool" where
  "scans argc argv s buf i ch \<longleftrightarrow>
     argv_at argv (optind s) = Inr (Some buf) \<and> char_at buf i = Inr ch \<and>
     (if arg_idx s = 0
      then optind s < argc \<and> char_at buf 0 = Inr CHR ''-'' \<and>
           \<not> strcmp_eq buf ''-'' \<and> \<not> strcmp_eq buf ''--'' \<and> i = 1
      else i = arg_idx s)"

text \<open>
  \<open>opt_str\<close> declares \<open>ch\<close> as an option with an argument: \<open>ch\<close> is not the marker, and
  the occurrence of \<open>ch\<close> that \<open>strchr\<close> finds is followed by \<open>:\<close>.
\<close>

definition takes_argument :: "string \<Rightarrow> char \<Rightarrow> bool" where
  "takes_argument opt_str ch \<longleftrightarrow>
     ch \<noteq> CHR '':'' \<and>
     (case strchr opt_str ch of
        None \<Rightarrow> False
      | Some k \<Rightarrow> char_at opt_str (int k + 1) = Inr CHR '':'')"

text \<open>What follows the character at offset \<open>i\<close> in its token.\<close>

definition remainder :: "string \<Rightarrow> int \<Rightarrow> string" where
  "remainder buf i = c_str (drop (nat (i + 1)) buf)"

text \<open>The test of \<open>getopt\<close> for a character that is not an option.\<close>

definition unknown_option :: "string \<Rightarrow> char \<Rightarrow> bool" where
  "unknown_option opt_str ch \<longleftrightarrow> ch = CHR '':'' \<or> strchr opt_str ch = None"



section \<open>Properties of the model\<close>

lemma char_to_int_mod: "char_to_int ch mod 256 = of_char ch"
  by (simp add: char_to_int_def)

lemma char_to_int_inj: "char_to_int a = char_to_int b \<longleftrightarrow> a = b"
proof
  assume "char_to_int a = char_to_int b"
  then have "char_to_int a mod 256 = char_to_int b mod 256" by simp
  then have "(of_char a :: int) = of_char b" by (simp only: char_to_int_mod)
  then show "a = b" by simp
qed simp


lemma char_at_Inr_range: "char_at buf i = Inr ch \<Longrightarrow> 0 \<le> i \<and> i \<le> int (length buf)"
  by (auto simp: char_at_def split: if_splits)


lemma strchr_from_bound:
  "strchr_from s ch n = Some k \<Longrightarrow> n \<le> k \<and> k \<le> n + length s"
  by (induction s ch n rule: strchr_from.induct) (auto split: if_splits)




lemma new_token_scans:
  assumes "scans argc argv s buf i ch"
  shows "new_token argc argv (s\<lparr>optarg := None\<rparr>) = Inr (None, s\<lparr>optarg := None, arg_idx := i\<rparr>)"
  using assms by (auto simp: scans_def new_token_def split: if_splits)

lemma getopt_scans:
  assumes "scans argc argv s buf i ch"
  shows "getopt argc argv opt_str s = option_char argc argv opt_str (s\<lparr>optarg := None, arg_idx := i\<rparr>)"
  by (simp add: getopt_def new_token_scans [OF assms])

lemma scans_reads:
  assumes "scans argc argv s buf i ch"
  shows "argv_at argv (optind s) = Inr (Some buf)" "char_at buf i = Inr ch"
  using assms by (auto simp: scans_def)

lemma print_err_fields [simp]:
  "optind (getopt_p_print_err opt_str msg c s) = optind s"
  "arg_idx (getopt_p_print_err opt_str msg c s) = arg_idx s"
  "optopt (getopt_p_print_err opt_str msg c s) = optopt s"
  "optarg (getopt_p_print_err opt_str msg c s) = optarg s"
  "opterr (getopt_p_print_err opt_str msg c s) = opterr s"
  by (simp_all add: getopt_p_print_err_def)






lemma option_char_plain:
  assumes rd: "argv_at argv (optind s) = Inr (Some buf)" "char_at buf (arg_idx s) = Inr ch"
    and nt: "\<not> takes_argument opt_str ch"
    and nx: "char_at buf (arg_idx s + 1) = Inr nx"
    and m: "unknown_option opt_str ch \<or> (\<exists>m. char_at opt_str (int (the (strchr opt_str ch)) + 1) = Inr m)"
  shows "\<exists>s'. option_char argc argv opt_str s =
            Inr (if unknown_option opt_str ch then char_to_int CHR ''?'' else char_to_int ch, s') \<and>
          optopt s' = char_to_int ch \<and> (optarg s = None \<longrightarrow> optarg s' = None) \<and>
          (if nx = NUL then optind s' = optind s + 1 \<and> arg_idx s' = 0
           else optind s' = optind s \<and> arg_idx s' = arg_idx s + 1)"
proof (cases "unknown_option opt_str ch")
  case True
  then have u: "char_to_int ch = char_to_int CHR '':'' \<or> strchr opt_str ch = None"
    by (simp add: unknown_option_def char_to_int_inj)
  show ?thesis
    using rd nx True u
    by (simp add: option_char_def advance_char_def deref_def Let_def getopt_p_option_unknown_def)
next
  case False
  then obtain k where k: "strchr opt_str ch = Some k" and nc: "ch \<noteq> CHR '':''"
    by (auto simp: unknown_option_def)
  from False m k obtain mm where mm: "char_at opt_str (int k + 1) = Inr mm" by auto
  with nt k nc have "mm \<noteq> CHR '':''" by (simp add: takes_argument_def)
  then show ?thesis
    using rd nx False k nc mm
    by (simp add: option_char_def advance_char_def deref_def Let_def char_to_int_inj)
qed

lemma option_char_arg:
  assumes rd: "argv_at argv (optind s) = Inr (Some buf)" "char_at buf (arg_idx s) = Inr ch"
    and ta: "takes_argument opt_str ch"
    and nx: "char_at buf (arg_idx s + 1) = Inr nx"
  shows "(nx \<noteq> NUL \<longrightarrow>
            option_char argc argv opt_str s =
              Inr (char_to_int ch, s\<lparr>optopt := char_to_int ch,
                     optarg := Some (optind s, arg_idx s + 1),
                     optind := optind s + 1, arg_idx := 0\<rparr>)) \<and>
         (nx = NUL \<and> optind s + 1 < argc \<longrightarrow>
            (\<forall>e. argv_at argv (optind s + 1) = Inl e \<longrightarrow>
                  option_char argc argv opt_str s = Inl e) \<and>
            (\<forall>q. argv_at argv (optind s + 1) = Inr q \<longrightarrow>
                  option_char argc argv opt_str s =
                    Inr (char_to_int ch, s\<lparr>optopt := char_to_int ch,
                           optarg := ptr_of q (optind s + 1),
                           optind := optind s + 2, arg_idx := 0\<rparr>))) \<and>
         (nx = NUL \<and> \<not> optind s + 1 < argc \<longrightarrow>
            (\<exists>s'. option_char argc argv opt_str s =
                    Inr (if char_at opt_str 0 = Inr CHR '':'' then char_to_int CHR '':''
                         else char_to_int CHR ''?'', s') \<and>
                  optopt s' = char_to_int ch \<and> optarg s' = optarg s \<and>
                  optind s' = optind s + 1 \<and> arg_idx s' = 0))"
proof -
  obtain k where k: "strchr opt_str ch = Some k" "char_at opt_str (int k + 1) = Inr CHR '':''"
    and nc: "ch \<noteq> CHR '':''"
    using ta by (auto simp: takes_argument_def split: option.splits)
  show ?thesis
    using rd nx k nc
    by (simp add: option_char_def deref_def Let_def char_to_int_inj
        getopt_p_option_unknown_def getopt_p_option_missing_def)
qed

lemma option_char_next_fault:
  assumes rd: "argv_at argv (optind s) = Inr (Some buf)" "char_at buf (arg_idx s) = Inr ch"
    and nx: "char_at buf (arg_idx s + 1) = Inl e"
  shows "\<exists>e'. option_char argc argv opt_str s = Inl e'"
proof (cases "char_to_int ch = char_to_int CHR '':'' \<or> strchr opt_str ch = None")
  case True
  then show ?thesis
    using rd nx by (simp add: option_char_def advance_char_def deref_def Let_def)
next
  case False
  then obtain k where k: "strchr opt_str ch = Some k" by auto
  show ?thesis
  proof (cases "char_at opt_str (int k + 1)")
    case (Inl e2)
    with False k rd show ?thesis by (simp add: option_char_def deref_def Let_def)
  next
    case (Inr mm)
    with False k rd nx show ?thesis
      by (simp add: option_char_def advance_char_def deref_def Let_def)
  qed
qed

lemma option_char_spec_fault:
  assumes rd: "argv_at argv (optind s) = Inr (Some buf)" "char_at buf (arg_idx s) = Inr ch"
    and nu: "\<not> unknown_option opt_str ch"
    and m: "char_at opt_str (int (the (strchr opt_str ch)) + 1) = Inl e"
  shows "option_char argc argv opt_str s = Inl e"
proof -
  from nu obtain k where k: "strchr opt_str ch = Some k" and nc: "ch \<noteq> CHR '':''"
    by (auto simp: unknown_option_def)
  with rd m show ?thesis by (simp add: option_char_def deref_def Let_def char_to_int_inj)
qed

text \<open>Every outcome of a call that scans a character and returns.\<close>

lemma scan_outcome:
  assumes sc: "scans argc argv s buf i ch"
    and ret: "getopt argc argv opt_str s = Inr (r, s')"
  shows "optopt s' = char_to_int ch \<and>
    (\<exists>nx. char_at buf (i + 1) = Inr nx \<and>
      ((\<not> takes_argument opt_str ch \<and> optarg s' = None \<and>
        r = (if unknown_option opt_str ch then char_to_int CHR ''?'' else char_to_int ch) \<and>
        (if nx = NUL then optind s' = optind s + 1 \<and> arg_idx s' = 0
         else optind s' = optind s \<and> arg_idx s' = i + 1)) \<or>
       (takes_argument opt_str ch \<and> nx \<noteq> NUL \<and> r = char_to_int ch \<and>
        optarg s' = Some (optind s, i + 1) \<and> optind s' = optind s + 1 \<and> arg_idx s' = 0) \<or>
       (takes_argument opt_str ch \<and> nx = NUL \<and> optind s + 1 < argc \<and> r = char_to_int ch \<and>
        (\<exists>q. argv_at argv (optind s + 1) = Inr q \<and> optarg s' = ptr_of q (optind s + 1)) \<and>
        optind s' = optind s + 2 \<and> arg_idx s' = 0) \<or>
       (takes_argument opt_str ch \<and> nx = NUL \<and> \<not> optind s + 1 < argc \<and> optarg s' = None \<and>
        r = (if char_at opt_str 0 = Inr CHR '':'' then char_to_int CHR '':''
             else char_to_int CHR ''?'') \<and>
        optind s' = optind s + 1 \<and> arg_idx s' = 0)))"
proof -
  define s1 where "s1 = s\<lparr>optarg := None, arg_idx := i\<rparr>"
  have f: "optind s1 = optind s" "arg_idx s1 = i" "optarg s1 = None"
    by (simp_all add: s1_def)
  from scans_reads [OF sc]
  have rd: "argv_at argv (optind s1) = Inr (Some buf)" "char_at buf (arg_idx s1) = Inr ch"
    by (simp_all add: f)
  from ret have oc: "option_char argc argv opt_str s1 = Inr (r, s')"
    by (simp add: getopt_scans [OF sc] s1_def)
  obtain nx where nx: "char_at buf (arg_idx s1 + 1) = Inr nx"
  proof (cases "char_at buf (arg_idx s1 + 1)")
    case (Inl e)
    from option_char_next_fault [OF rd Inl, of argc opt_str] oc show ?thesis by simp
  next
    case (Inr x)
    then show ?thesis by (rule that)
  qed
  show ?thesis
  proof (cases "takes_argument opt_str ch")
    case False
    have "unknown_option opt_str ch \<or>
          (\<exists>m. char_at opt_str (int (the (strchr opt_str ch)) + 1) = Inr m)"
    proof (cases "unknown_option opt_str ch")
      case nu: False
      show ?thesis
      proof (cases "char_at opt_str (int (the (strchr opt_str ch)) + 1)")
        case (Inl e)
        from option_char_spec_fault [OF rd nu Inl, of argc] oc show ?thesis by simp
      next
        case (Inr m)
        then show ?thesis by blast
      qed
    qed simp
    from option_char_plain [OF rd False nx this, of argc] oc f nx False
    show ?thesis by auto
  next
    case True
    note arg = option_char_arg [OF rd True nx, of argc]
    show ?thesis
    proof (cases "nx = NUL")
      case nn: False
      with arg oc have "r = char_to_int ch \<and> s' = s1\<lparr>optopt := char_to_int ch,
                     optarg := Some (optind s1, arg_idx s1 + 1),
                     optind := optind s1 + 1, arg_idx := 0\<rparr>" by auto
      with True nn nx f show ?thesis by simp
    next
      case nul: True
      show ?thesis
      proof (cases "optind s + 1 < argc")
        case lt: True
        show ?thesis
        proof (cases "argv_at argv (optind s + 1)")
          case (Inl e)
          with arg nul lt oc f show ?thesis by simp
        next
          case (Inr q)
          with arg nul lt f have "option_char argc argv opt_str s1 =
                    Inr (char_to_int ch, s1\<lparr>optopt := char_to_int ch,
                           optarg := ptr_of q (optind s1 + 1),
                           optind := optind s1 + 2, arg_idx := 0\<rparr>)" by simp
          with oc have "r = char_to_int ch \<and> s' = s1\<lparr>optopt := char_to_int ch,
                           optarg := ptr_of q (optind s1 + 1),
                           optind := optind s1 + 2, arg_idx := 0\<rparr>" by auto
          with True nul lt nx f Inr show ?thesis by simp
        qed
      next
        case ge: False
        with arg nul f obtain s'' where
          "option_char argc argv opt_str s1 =
                    Inr (if char_at opt_str 0 = Inr CHR '':'' then char_to_int CHR '':''
                         else char_to_int CHR ''?'', s'')"
          "optopt s'' = char_to_int ch" "optarg s'' = optarg s1"
          "optind s'' = optind s1 + 1" "arg_idx s'' = 0" by auto
        with oc True nul ge nx f show ?thesis by simp
      qed
    qed
  qed
qed

text \<open>A call that returns without scanning a character returns at the token boundary.\<close>

lemma no_scan_outcome:
  assumes ns: "\<not> (\<exists>buf i ch. scans argc argv s buf i ch)"
    and ret: "getopt argc argv opt_str s = Inr (r, s')"
  shows "arg_idx s = 0 \<and> r = - 1 \<and>
         (s' = s\<lparr>optarg := None\<rparr> \<or> s' = s\<lparr>optarg := None, optind := optind s + 1\<rparr>)"
proof (cases "new_token argc argv (s\<lparr>optarg := None\<rparr>)")
  case (Inl e)
  with ret show ?thesis by (simp add: getopt_def)
next
  case (Inr x)
  obtain ro s1 where x: "x = (ro, s1)" by (cases x)
  show ?thesis
  proof (cases ro)
    case (Some r')
    with Inr x ret have "r = r'" "s' = s1" by (simp_all add: getopt_def)
    with Inr x Some show ?thesis
      by (auto simp: new_token_def split: if_splits sum.splits option.splits)
  next
    case None
    with Inr x ret have oc: "option_char argc argv opt_str s1 = Inr (r, s')"
      by (simp add: getopt_def)
    then obtain buf ch where rd: "argv_at argv (optind s1) = Inr (Some buf)"
        "char_at buf (arg_idx s1) = Inr ch"
      by (auto simp: option_char_def deref_def split: sum.splits option.splits)
    from Inr x None rd have "scans argc argv s buf (arg_idx s1) ch"
      by (auto simp: new_token_def scans_def split: if_splits sum.splits option.splits)
    with ns show ?thesis by blast
  qed
qed

lemma char_at_zero: "\<exists>c0. char_at buf 0 = Inr c0"
  by (simp add: char_at_def)

lemma NUL_neq [simp]:
  "CHR ''-'' \<noteq> NUL" "NUL \<noteq> CHR ''-''" "CHR '':'' \<noteq> NUL" "NUL \<noteq> CHR '':''"
  by (simp_all add: NUL_def)

lemma c_str_dash: "c_str ''-'' = ''-''" "c_str ''--'' = ''--''"
  by (simp_all add: c_str_def)

lemma strcmp_double_dash:
  assumes "strcmp_eq buf ''--''"
  shows "char_at buf 0 = Inr CHR ''-''" "\<not> strcmp_eq buf ''-''"
proof -
  have "char_at buf 0 = Inr CHR ''-'' \<and> \<not> strcmp_eq buf ''-''"
  proof (cases buf)
    case Nil
    with assms show ?thesis by (simp add: strcmp_eq_def c_str_dash) (simp add: c_str_def)
  next
    case (Cons x xs)
    with assms show ?thesis
      by (auto simp: strcmp_eq_def c_str_dash char_at_def c_str_def split: if_splits)
  qed
  then show "char_at buf 0 = Inr CHR ''-''" "\<not> strcmp_eq buf ''-''" by simp_all
qed

lemmas eval_defs = scans_def takes_argument_def unknown_option_def remainder_def argv_at_def
  char_at_def strcmp_eq_def c_str_def NUL_def strchr_def init_state_def char_to_int_def
  ptr_of_def optarg_string_def








lemma boundary_return_fixed:
  assumes ret: "getopt argc argv opt_str s = Inr (r, s')"
    and same: "optind s' = optind s" "arg_idx s' = 0"
  shows "r = - 1 \<and> getopt argc argv opt_str s' = Inr (- 1, s')"
proof (cases "\<exists>buf i ch. scans argc argv s buf i ch")
  case True
  then obtain buf i ch where sc: "scans argc argv s buf i ch" by blast
  from scans_reads(2) [OF sc] have "0 \<le> i" by (auto dest: char_at_Inr_range)
  with scan_outcome [OF sc ret] same show ?thesis by (auto split: if_splits)
next
  case False
  from no_scan_outcome [OF False ret] same have r: "r = - 1" and s': "s' = s\<lparr>optarg := None\<rparr>"
    by auto
  from s' have "getopt argc argv opt_str s' = getopt argc argv opt_str s"
    by (simp add: getopt_def)
  with ret r show ?thesis by simp
qed





lemma strchr_from_first:
  assumes "ch \<notin> set xs" "NUL \<notin> set xs"
  shows "strchr_from (xs @ ch # ys) ch n = Some (n + length xs)"
  using assms by (induction xs arbitrary: n) auto

text \<open>
  The reading of ``\<open>ch\<close> followed by \<open>:\<close> in \<open>opt_str\<close>'' that the code implements: the
  first occurrence of \<open>ch\<close> counts.
\<close>

lemma takes_argument_first:
  assumes "ch \<noteq> CHR '':''" "ch \<notin> set xs" "NUL \<notin> set xs"
  shows "takes_argument (xs @ ch # CHR '':'' # ys) ch"
proof -
  have "strchr (xs @ ch # CHR '':'' # ys) ch = Some (length xs)"
    using strchr_from_first [OF assms(2,3), of "CHR '':'' # ys" 0] by (simp add: strchr_def)
  moreover have "char_at (xs @ ch # CHR '':'' # ys) (int (length xs) + 1) = Inr CHR '':''"
  proof -
    have "nat (int (length xs) + 1) = Suc (length xs)" by simp
    then show ?thesis by (simp add: char_at_def nth_append)
  qed
  ultimately show ?thesis using assms(1) by (simp add: takes_argument_def)
qed


lemma int32_1 [simp]: "int32 1 = 1"
  by (simp add: int32_def)

lemma int32_INT_MAX: "int32 (INT_MAX + 1) = - 2147483648"
  by (simp add: int32_def INT_MAX_def)








text \<open>
  The bound on the length is needed: a call that starts at offset \<open>INT_MAX\<close> of its
  element reads out of bounds after the increment.
\<close>

lemma getopt32_at_INT_MAX:
  assumes "argv_at argv (optind s) = Inr (Some buf)"
    and "arg_idx s = INT_MAX"
    and "char_at buf INT_MAX = Inr ch"
  shows "\<exists>e. getopt32 argc argv opt_str s = Inl e"
proof -
  have w: "int32 (INT_MAX + 1) < 0" by (simp add: int32_INT_MAX)
  then have rd: "char_at buf (int32 (INT_MAX + 1)) = Inl OutOfBounds"
    by (simp add: char_at_def)
  have nz: "INT_MAX \<noteq> 0" by (simp add: INT_MAX_def)
  have adv: "advance_char32 argv t = Inl OutOfBounds"
    if "optind t = optind s" "arg_idx t = INT_MAX" for t
    using that assms(1) rd by (simp add: advance_char32_def deref_def Let_def)
  have oc: "\<exists>e. option_char32 argc argv opt_str (s\<lparr>optarg := None\<rparr>) = Inl e"
  proof (cases "char_to_int ch = char_to_int CHR '':'' \<or> strchr opt_str ch = None")
    case True
    with assms adv show ?thesis
      by (simp add: option_char32_def deref_def Let_def)
  next
    case False
    show ?thesis
    proof (cases "char_at opt_str (int (the (strchr opt_str ch)) + 1)")
      case (Inl e)
      with False assms show ?thesis by (auto simp: option_char32_def deref_def Let_def)
    next
      case (Inr m)
      with False assms adv rd show ?thesis
        by (auto simp: option_char32_def deref_def Let_def)
    qed
  qed
  with assms(2) nz show ?thesis by (simp add: getopt32_def new_token32_def)
qed


lemmas getopt_defs = getopt_def new_token_def option_char_def advance_char_def deref_def
  getopt_p_print_err_def getopt_p_option_unknown_def getopt_p_option_missing_def Let_def


section \<open>The claims\<close>





text \<open>
  C3. At a token boundary \<open>getopt\<close> returns -1 and leaves \<open>optind\<close> unchanged when
  \<open>optind\<close> is at or past \<open>argc\<close>, when the current element is null, when it does not
  begin with \<open>-\<close>, and when it is exactly \<open>-\<close>. When it is exactly \<open>--\<close>, \<open>optind\<close> is
  advanced past it and -1 is returned.
\<close>

theorem end_of_options:
  assumes "arg_idx s = 0"
  shows "(argc \<le> optind s \<longrightarrow> getopt argc argv opt_str s = Inr (- 1, s\<lparr>optarg := None\<rparr>)) \<and>
         (argv_at argv (optind s) = Inr None \<longrightarrow>
            getopt argc argv opt_str s = Inr (- 1, s\<lparr>optarg := None\<rparr>)) \<and>
         (\<forall>buf. argv_at argv (optind s) = Inr (Some buf) \<and>
                (char_at buf 0 \<noteq> Inr CHR ''-'' \<or> strcmp_eq buf ''-'') \<longrightarrow>
            getopt argc argv opt_str s = Inr (- 1, s\<lparr>optarg := None\<rparr>)) \<and>
         (\<forall>buf. optind s < argc \<and> argv_at argv (optind s) = Inr (Some buf) \<and>
                strcmp_eq buf ''--'' \<longrightarrow>
            getopt argc argv opt_str s =
              Inr (- 1, s\<lparr>optarg := None, optind := optind s + 1\<rparr>))"
proof -
  have a: "getopt argc argv opt_str s = Inr (- 1, s\<lparr>optarg := None\<rparr>)" if "argc \<le> optind s"
    using that assms by (simp add: getopt_def new_token_def)
  have b: "getopt argc argv opt_str s = Inr (- 1, s\<lparr>optarg := None\<rparr>)"
    if "argv_at argv (optind s) = Inr None"
    using that assms by (simp add: getopt_def new_token_def)
  have c: "getopt argc argv opt_str s = Inr (- 1, s\<lparr>optarg := None\<rparr>)"
    if "argv_at argv (optind s) = Inr (Some buf)"
      "char_at buf 0 \<noteq> Inr CHR ''-'' \<or> strcmp_eq buf ''-''" for buf
    using that assms char_at_zero [of buf] by (auto simp: getopt_def new_token_def)
  have d: "getopt argc argv opt_str s = Inr (- 1, s\<lparr>optarg := None, optind := optind s + 1\<rparr>)"
    if "optind s < argc" "argv_at argv (optind s) = Inr (Some buf)" "strcmp_eq buf ''--''" for buf
    using that assms strcmp_double_dash [OF that(3)] by (simp add: getopt_def new_token_def)
  from a b c d show ?thesis by blast
qed

theorem end_of_options_witness:
  "arg_idx init_state = 0 \<and>
   getopt 1 [Some ''prog''] ''h'' init_state = Inr (- 1, init_state) \<and>
   getopt 2 [Some ''prog'', None] ''h'' init_state = Inr (- 1, init_state) \<and>
   getopt 2 [Some ''prog'', Some ''file''] ''h'' init_state = Inr (- 1, init_state) \<and>
   getopt 2 [Some ''prog'', Some ''-''] ''h'' init_state = Inr (- 1, init_state) \<and>
   getopt 3 [Some ''prog'', Some ''--'', Some ''-x''] ''x'' init_state =
     Inr (- 1, init_state\<lparr>optind := 2\<rparr>)"
proof -
  have h: "arg_idx init_state = 0" by (simp add: init_state_def)
  have e: "init_state\<lparr>optarg := None\<rparr> = init_state" by (simp add: init_state_def)
  have i1: "optind init_state = 1" by (simp add: init_state_def)
  from end_of_options [OF h, of 1 "[Some ''prog'']" "''h''"]
  have a: "getopt 1 [Some ''prog''] ''h'' init_state = Inr (- 1, init_state)"
    by (simp add: i1 e)
  from end_of_options [OF h, of 2 "[Some ''prog'', None]" "''h''"]
  have b: "getopt 2 [Some ''prog'', None] ''h'' init_state = Inr (- 1, init_state)"
    by (simp add: i1 e argv_at_def)
  from end_of_options [OF h, of 2 "[Some ''prog'', Some ''file'']" "''h''"]
  have c: "getopt 2 [Some ''prog'', Some ''file''] ''h'' init_state = Inr (- 1, init_state)"
    by (simp add: i1 e argv_at_def char_at_def)
  from end_of_options [OF h, of 2 "[Some ''prog'', Some ''-'']" "''h''"]
  have d: "getopt 2 [Some ''prog'', Some ''-''] ''h'' init_state = Inr (- 1, init_state)"
    by (simp add: i1 e argv_at_def strcmp_eq_def)
  from end_of_options [OF h, of 3 "[Some ''prog'', Some ''--'', Some ''-x'']" "''x''"]
  have f: "getopt 3 [Some ''prog'', Some ''--'', Some ''-x''] ''x'' init_state =
     Inr (- 1, init_state\<lparr>optind := 2\<rparr>)"
    by (simp add: i1 e argv_at_def strcmp_eq_def)
  from h a b c d f show ?thesis by simp
qed






text \<open>
  C6, as amended. Once a call has returned -1 without advancing \<open>optind\<close> (vector
  exhausted, null element, element not starting with \<open>-\<close>, or a lone \<open>-\<close>), every later
  call returns -1 and leaves the state unchanged. After \<open>--\<close> the claim as written
  fails: the call that consumes \<open>--\<close> returns -1, and the next call scans the following
  element, as the second theorem shows for \<open>--\<close>, \<open>-x\<close>.
\<close>

theorem repeated_end_stable:
  assumes "getopt argc argv opt_str s = Inr (- 1, s')"
    and "optind s' = optind s" and "arg_idx s' = 0"
  shows "getopt_calls n argc argv opt_str s' = Inr (replicate n (- 1), s')"
proof -
  from boundary_return_fixed [OF assms]
  have fp: "getopt argc argv opt_str s' = Inr (- 1, s')" by simp
  show ?thesis by (induction n) (simp_all add: fp)
qed

theorem repeated_end_stable_counterexample:
  "getopt 3 [Some ''prog'', Some ''--'', Some ''-x''] ''x'' init_state =
     Inr (- 1, init_state\<lparr>optind := 2\<rparr>) \<and>
   getopt 3 [Some ''prog'', Some ''--'', Some ''-x''] ''x'' (init_state\<lparr>optind := 2\<rparr>) =
     Inr (120, init_state\<lparr>optind := 3, optopt := 120\<rparr>) \<and>
   char_to_int CHR ''x'' = 120"
  by (simp add: getopt_def new_token_def option_char_def advance_char_def deref_def
      argv_at_def char_at_def strcmp_eq_def c_str_def NUL_def strchr_def init_state_def
      char_to_int_def Let_def)

theorem repeated_end_stable_witness:
  "getopt 2 [Some ''prog'', Some ''file''] ''h'' init_state = Inr (- 1, init_state) \<and>
   getopt_calls 3 2 [Some ''prog'', Some ''file''] ''h'' init_state =
     Inr ([- 1, - 1, - 1], init_state)"
proof -
  have h: "getopt 2 [Some ''prog'', Some ''file''] ''h'' init_state = Inr (- 1, init_state)"
    by (simp add: eval_defs getopt_defs)
  from repeated_end_stable [OF h, of 3] h show ?thesis
    by (simp add: numeral_3_eq_3)
qed

text \<open>
  C7. After every call that returns, \<open>arg_idx\<close> is 0 or it is the offset of a
  character other than NUL in the element \<open>optind\<close> still designates. For a call that
  scans the character at offset \<open>i\<close>: \<open>arg_idx\<close> is 0 afterwards exactly when \<open>optind\<close>
  has advanced, which is exactly when the character takes an argument or is the last of its
  token; otherwise \<open>arg_idx\<close> is \<open>i + 1\<close>.
\<close>

theorem cursor_invariant:
  assumes ret: "getopt argc argv opt_str s = Inr (r, s')"
  shows "(arg_idx s' = 0 \<or>
          (optind s' = optind s \<and>
           (\<exists>buf nx. argv_at argv (optind s') = Inr (Some buf) \<and>
                     char_at buf (arg_idx s') = Inr nx \<and> nx \<noteq> NUL))) \<and>
         (\<forall>buf i ch. scans argc argv s buf i ch \<longrightarrow>
            (arg_idx s' = 0 \<longleftrightarrow> optind s < optind s') \<and>
            (arg_idx s' = 0 \<longleftrightarrow> takes_argument opt_str ch \<or> char_at buf (i + 1) = Inr NUL) \<and>
            (arg_idx s' \<noteq> 0 \<longrightarrow> arg_idx s' = i + 1))"
proof -
  have sc_part: "(arg_idx s' = 0 \<longleftrightarrow> optind s < optind s') \<and>
            (arg_idx s' = 0 \<longleftrightarrow> takes_argument opt_str ch \<or> char_at buf (i + 1) = Inr NUL) \<and>
            (arg_idx s' \<noteq> 0 \<longrightarrow> arg_idx s' = i + 1 \<and> optind s' = optind s \<and>
               (\<exists>nx. char_at buf (i + 1) = Inr nx \<and> nx \<noteq> NUL))"
    if sc: "scans argc argv s buf i ch" for buf i ch
  proof -
    from scans_reads(2) [OF sc] have "0 \<le> i" by (auto dest: char_at_Inr_range)
    then show ?thesis
      using scan_outcome [OF sc ret] by (auto split: if_splits)
  qed
  have inv: "arg_idx s' = 0 \<or>
          (optind s' = optind s \<and>
           (\<exists>buf nx. argv_at argv (optind s') = Inr (Some buf) \<and>
                     char_at buf (arg_idx s') = Inr nx \<and> nx \<noteq> NUL))"
  proof (cases "\<exists>buf i ch. scans argc argv s buf i ch")
    case True
    then obtain buf i ch where sc: "scans argc argv s buf i ch" by blast
    from sc_part [OF sc] scans_reads(1) [OF sc] show ?thesis by auto
  next
    case False
    from no_scan_outcome [OF False ret] show ?thesis by auto
  qed
  from inv sc_part show ?thesis by blast
qed

theorem cursor_invariant_witness:
  "getopt 2 [Some ''prog'', Some ''-ab''] ''ab'' init_state =
     Inr (97, init_state\<lparr>optopt := 97, arg_idx := 2\<rparr>) \<and>
   scans 2 [Some ''prog'', Some ''-ab''] init_state ''-ab'' 1 CHR ''a'' \<and>
   \<not> takes_argument ''ab'' CHR ''a'' \<and> char_at ''-ab'' (1 + 1) \<noteq> Inr NUL \<and>
   getopt 2 [Some ''prog'', Some ''-ab''] ''ab'' (init_state\<lparr>optopt := 97, arg_idx := 2\<rparr>) =
     Inr (98, init_state\<lparr>optopt := 98, optind := 2\<rparr>) \<and>
   scans 2 [Some ''prog'', Some ''-ab''] (init_state\<lparr>optopt := 97, arg_idx := 2\<rparr>) ''-ab'' 2
     CHR ''b'' \<and>
   (takes_argument ''ab'' CHR ''b'' \<or> char_at ''-ab'' (2 + 1) = Inr NUL)"
proof -
  have r1: "getopt 2 [Some ''prog'', Some ''-ab''] ''ab'' init_state =
     Inr (97, init_state\<lparr>optopt := 97, arg_idx := 2\<rparr>)"
    by (simp add: eval_defs getopt_defs)
  have r2: "getopt 2 [Some ''prog'', Some ''-ab''] ''ab''
      (init_state\<lparr>optopt := 97, arg_idx := 2\<rparr>) =
     Inr (98, init_state\<lparr>optopt := 98, optind := 2\<rparr>)"
    by (simp add: eval_defs getopt_defs)
  have s1: "scans 2 [Some ''prog'', Some ''-ab''] init_state ''-ab'' 1 CHR ''a''"
    and s2: "scans 2 [Some ''prog'', Some ''-ab''] (init_state\<lparr>optopt := 97, arg_idx := 2\<rparr>)
       ''-ab'' 2 CHR ''b''"
    by (simp_all add: eval_defs)
  from cursor_invariant [OF r1, THEN conjunct2, rule_format, OF s1]
  have a: "\<not> takes_argument ''ab'' CHR ''a'' \<and> char_at ''-ab'' (1 + 1) \<noteq> Inr NUL"
    by (simp add: init_state_def)
  from cursor_invariant [OF r2, THEN conjunct2, rule_format, OF s2]
  have b: "takes_argument ''ab'' CHR ''b'' \<or> char_at ''-ab'' (2 + 1) = Inr NUL"
    by (simp add: init_state_def)
  from r1 r2 s1 s2 a b show ?thesis by blast
qed



text \<open>
  C9. A call that scans a character leaves that character in \<open>optopt\<close>, whatever it
  returns; a call that returns without scanning one is a return of -1 at the token
  boundary and leaves \<open>optopt\<close> as it was.
\<close>

theorem optopt_overwritten:
  assumes ret: "getopt argc argv opt_str s = Inr (r, s')"
  shows "(\<forall>buf i ch. scans argc argv s buf i ch \<longrightarrow> optopt s' = char_to_int ch) \<and>
         ((\<nexists>buf i ch. scans argc argv s buf i ch) \<longrightarrow>
            arg_idx s = 0 \<and> r = - 1 \<and> optopt s' = optopt s)"
proof -
  have a: "optopt s' = char_to_int ch" if "scans argc argv s buf i ch" for buf i ch
    using scan_outcome [OF that ret] by simp
  have b: "arg_idx s = 0 \<and> r = - 1 \<and> optopt s' = optopt s"
    if "\<nexists>buf i ch. scans argc argv s buf i ch"
    using no_scan_outcome [OF that ret] by auto
  from a b show ?thesis by blast
qed

theorem optopt_overwritten_witness:
  "getopt 2 [Some ''prog'', Some ''-a''] ''a'' init_state =
     Inr (97, init_state\<lparr>optopt := 97, optind := 2\<rparr>) \<and>
   scans 2 [Some ''prog'', Some ''-a''] init_state ''-a'' 1 CHR ''a'' \<and>
   optopt (init_state\<lparr>optopt := 97, optind := 2\<rparr>) = char_to_int CHR ''a'' \<and>
   getopt 2 [Some ''prog'', Some ''file''] ''a'' (init_state\<lparr>optopt := 97, optind := 1\<rparr>) =
     Inr (- 1, init_state\<lparr>optopt := 97, optind := 1\<rparr>) \<and>
   (\<nexists>buf i ch. scans 2 [Some ''prog'', Some ''file''] (init_state\<lparr>optopt := 97, optind := 1\<rparr>)
      buf i ch) \<and>
   optopt (init_state\<lparr>optopt := 97, optind := 1\<rparr>) = 97"
proof -
  have r1: "getopt 2 [Some ''prog'', Some ''-a''] ''a'' init_state =
     Inr (97, init_state\<lparr>optopt := 97, optind := 2\<rparr>)"
    by (simp add: eval_defs getopt_defs)
  have s1: "scans 2 [Some ''prog'', Some ''-a''] init_state ''-a'' 1 CHR ''a''"
    by (simp add: eval_defs)
  have r2: "getopt 2 [Some ''prog'', Some ''file''] ''a'' (init_state\<lparr>optopt := 97, optind := 1\<rparr>) =
     Inr (- 1, init_state\<lparr>optopt := 97, optind := 1\<rparr>)"
    by (simp add: eval_defs getopt_defs)
  have n2: "\<nexists>buf i ch. scans 2 [Some ''prog'', Some ''file'']
      (init_state\<lparr>optopt := 97, optind := 1\<rparr>) buf i ch"
    by (auto simp: eval_defs)
  from optopt_overwritten [OF r1] s1
  have a: "optopt (init_state\<lparr>optopt := 97, optind := 2\<rparr>) = char_to_int CHR ''a''" by blast
  from optopt_overwritten [OF r2] n2
  have b: "optopt (init_state\<lparr>optopt := 97, optind := 1\<rparr>) = 97" by simp
  from r1 s1 a r2 n2 b show ?thesis by blast
qed

text \<open>
  C10. The result of a call does not depend on the previous value of \<open>optarg\<close>. After
  a call, \<open>optarg\<close> is not null only if the call scanned a character declared with an
  argument, returned that character and found the argument (in the rest of the token
  or in the next element); \<open>optarg\<close> then points into an element of the vector.
\<close>

theorem optarg_reset:
  assumes ret: "getopt argc argv opt_str s = Inr (r, s')"
  shows "getopt argc argv opt_str (s\<lparr>optarg := p\<rparr>) = Inr (r, s') \<and>
         (optarg s' \<noteq> None \<longrightarrow>
            (\<exists>buf i ch. scans argc argv s buf i ch \<and> takes_argument opt_str ch \<and>
               r = char_to_int ch \<and>
               (char_at buf (i + 1) \<noteq> Inr NUL \<or> optind s + 1 < argc) \<and>
               (\<exists>e off buf'. optarg s' = Some (e, off) \<and> argv_at argv e = Inr (Some buf') \<and>
                  0 \<le> off \<and> off \<le> int (length buf'))))"
proof -
  have a: "getopt argc argv opt_str (s\<lparr>optarg := p\<rparr>) = Inr (r, s')"
    using ret by (simp add: getopt_def)
  have b: "\<exists>buf i ch. scans argc argv s buf i ch \<and> takes_argument opt_str ch \<and>
               r = char_to_int ch \<and>
               (char_at buf (i + 1) \<noteq> Inr NUL \<or> optind s + 1 < argc) \<and>
               (\<exists>e off buf'. optarg s' = Some (e, off) \<and> argv_at argv e = Inr (Some buf') \<and>
                  0 \<le> off \<and> off \<le> int (length buf'))"
    if nn: "optarg s' \<noteq> None"
  proof (cases "\<exists>buf i ch. scans argc argv s buf i ch")
    case False
    from no_scan_outcome [OF False ret] nn show ?thesis by auto
  next
    case True
    then obtain buf i ch where sc: "scans argc argv s buf i ch" by blast
    note rd = scans_reads [OF sc]
    from scan_outcome [OF sc ret] nn obtain nx where nx: "char_at buf (i + 1) = Inr nx"
      and ta: "takes_argument opt_str ch" and r: "r = char_to_int ch"
      and cases: "(nx \<noteq> NUL \<and> optarg s' = Some (optind s, i + 1)) \<or>
          (nx = NUL \<and> optind s + 1 < argc \<and>
           (\<exists>q. argv_at argv (optind s + 1) = Inr q \<and> optarg s' = ptr_of q (optind s + 1)))"
      by auto
    from char_at_Inr_range [OF nx] have rng: "0 \<le> i + 1" "i + 1 \<le> int (length buf)" by auto
    from cases nn rd(1) rng
    have "\<exists>e off buf'. optarg s' = Some (e, off) \<and> argv_at argv e = Inr (Some buf') \<and>
                  0 \<le> off \<and> off \<le> int (length buf')"
      by (auto simp: ptr_of_def split: option.splits)
    moreover from cases nx have "char_at buf (i + 1) \<noteq> Inr NUL \<or> optind s + 1 < argc"
      by auto
    ultimately show ?thesis using sc ta r by blast
  qed
  from a b show ?thesis by blast
qed

theorem optarg_reset_witness:
  "getopt 3 [Some ''prog'', Some ''-f'', Some ''value''] ''f:'' init_state =
     Inr (102, init_state\<lparr>optarg := Some (2, 0), optopt := 102, optind := 3\<rparr>) \<and>
   getopt 3 [Some ''prog'', Some ''-f'', Some ''value''] ''f:''
     (init_state\<lparr>optarg := Some (1, 1)\<rparr>) =
     Inr (102, init_state\<lparr>optarg := Some (2, 0), optopt := 102, optind := 3\<rparr>) \<and>
   (\<exists>buf i ch. scans 3 [Some ''prog'', Some ''-f'', Some ''value''] init_state buf i ch \<and>
      takes_argument ''f:'' ch \<and> 102 = char_to_int ch)"
proof -
  have r: "getopt 3 [Some ''prog'', Some ''-f'', Some ''value''] ''f:'' init_state =
     Inr (102, init_state\<lparr>optarg := Some (2, 0), optopt := 102, optind := 3\<rparr>)"
    by (simp add: eval_defs getopt_defs)
  from optarg_reset [OF r, of "Some (1, 1)"] r show ?thesis
    by (simp add: init_state_def) blast
qed

end
